theory Spec2Isabelle
  imports Complex_Main "HOL-Library.Word" "HOL-Library.Sublist" "HOL-Library.AList"
begin

section \<open>JavaScript values\<close>

text \<open>
  A JavaScript string is a sequence of 16-bit code units. Literals of \<open>server.js\<close> are
  ASCII and are written \<open>ascii ''...''\<close>.
\<close>

type_synonym jstring = "16 word list"

definition ascii :: "string \<Rightarrow> jstring" where
  "ascii s = map of_char s"

text \<open>
  The primitive values that reach the handler from \<open>req.query\<close>, \<open>process.env\<close> and the
  destructuring defaults: \<open>undefined\<close>, a string, or one of the numbers \<open>50\<close>, \<open>10\<close>, \<open>0\<close>.
  \<open>Num n\<close> stands for the non-negative integer \<open>n\<close>; below \<open>10^21\<close> JavaScript prints such a
  number in plain decimal. A repeated or bracketed query parameter, which the query parser
  turns into an array or an object, is outside this model.
\<close>

datatype jsval = Undefined | Num nat | Str jstring

text \<open>\<open>!v\<close>: \<open>undefined\<close>, \<open>0\<close> and the empty string are falsy.\<close>

fun falsy :: "jsval \<Rightarrow> bool" where
  "falsy Undefined = True"
| "falsy (Num n) = (n = 0)"
| "falsy (Str s) = (s = [])"

text \<open>A destructuring default \<open>x = d\<close> applies exactly when the property is \<open>undefined\<close>.\<close>

fun default_to :: "jsval \<Rightarrow> jsval \<Rightarrow> jsval" where
  "default_to Undefined d = d"
| "default_to v d = v"

text \<open>\<open>Number.prototype.toString\<close> on a non-negative integer: its decimal digits.\<close>

definition decimal_digit :: "nat \<Rightarrow> 16 word" where
  "decimal_digit d = of_nat (48 + d)"

fun decimal :: "nat \<Rightarrow> jstring" where
  "decimal n = (if n < 10 then [decimal_digit n] else decimal (n div 10) @ [decimal_digit (n mod 10)])"

declare decimal.simps [simp del]

text \<open>\<open>String(v)\<close>, as \<open>URLSearchParams\<close> applies it to every value of its record.\<close>

fun to_string :: "jsval \<Rightarrow> jstring" where
  "to_string Undefined = ascii ''undefined''"
| "to_string (Num n) = decimal n"
| "to_string (Str s) = s"

text \<open>
  Parsed JSON, as \<open>response.json()\<close> returns it and \<open>res.json\<close> sends it. \<open>JNum q\<close> is the
  finite double of value \<open>q\<close> (both zeros are \<open>0\<close>). An object lists its properties in
  their own order, with distinct names.
\<close>

datatype json =
    JNull
  | JBool bool
  | JNum rat
  | JStr jstring
  | JArr "json list"
  | JObj "(jstring \<times> json) list"

fun truthy :: "json \<Rightarrow> bool" where
  "truthy JNull = False"
| "truthy (JBool b) = b"
| "truthy (JNum q) = (q \<noteq> 0)"
| "truthy (JStr s) = (s \<noteq> [])"
| "truthy (JArr xs) = True"
| "truthy (JObj ps) = True"

section \<open>\<open>JSON.stringify\<close> on a record of primitive values\<close>

definition is_leading_surrogate :: "16 word \<Rightarrow> bool" where
  "is_leading_surrogate c = (0xD800 \<le> c \<and> c \<le> 0xDBFF)"

definition is_trailing_surrogate :: "16 word \<Rightarrow> bool" where
  "is_trailing_surrogate c = (0xDC00 \<le> c \<and> c \<le> 0xDFFF)"

definition hex_digit :: "nat \<Rightarrow> 16 word" where
  "hex_digit d = (if d < 10 then of_nat (48 + d) else of_nat (87 + d))"

text \<open>\<open>UnicodeEscape\<close>: \<open>\u\<close> and four lower-case hexadecimal digits.\<close>

definition unicode_escape :: "16 word \<Rightarrow> jstring" where
  "unicode_escape c =
     [0x5C, 0x75,
      hex_digit (unat c div 4096 mod 16), hex_digit (unat c div 256 mod 16),
      hex_digit (unat c div 16 mod 16), hex_digit (unat c mod 16)]"

text \<open>One code point that is a single code unit, as \<open>QuoteJSONString\<close> writes it.\<close>

definition escape_unit :: "16 word \<Rightarrow> jstring" where
  "escape_unit c =
     (if c = 0x08 then [0x5C, 0x62]
      else if c = 0x09 then [0x5C, 0x74]
      else if c = 0x0A then [0x5C, 0x6E]
      else if c = 0x0C then [0x5C, 0x66]
      else if c = 0x0D then [0x5C, 0x72]
      else if c = 0x22 then [0x5C, 0x22]
      else if c = 0x5C then [0x5C, 0x5C]
      else if c < 0x20 \<or> is_leading_surrogate c \<or> is_trailing_surrogate c then unicode_escape c
      else [c])"

text \<open>
  The string is read by code points: a leading surrogate followed by a trailing one is a
  pair and is copied; any other surrogate stands alone and is escaped.
\<close>

fun quote_body :: "jstring \<Rightarrow> jstring" where
  "quote_body [] = []"
| "quote_body [c] = escape_unit c"
| "quote_body (c # d # cs) =
     (if is_leading_surrogate c \<and> is_trailing_surrogate d then c # d # quote_body cs
      else escape_unit c @ quote_body (d # cs))"

definition quote :: "jstring \<Rightarrow> jstring" where
  "quote s = 0x22 # quote_body s @ [0x22]"

text \<open>\<open>JSON.stringify\<close> of a property value; \<open>None\<close> where the property is left out.\<close>

fun stringify_value :: "jsval \<Rightarrow> jstring option" where
  "stringify_value Undefined = None"
| "stringify_value (Num n) = Some (decimal n)"
| "stringify_value (Str s) = Some (quote s)"

fun stringify_properties :: "(jstring \<times> jsval) list \<Rightarrow> jstring list" where
  "stringify_properties [] = []"
| "stringify_properties ((k, v) # ps) =
     (case stringify_value v of
        None \<Rightarrow> stringify_properties ps
      | Some s \<Rightarrow> (quote k @ ascii '':'' @ s) # stringify_properties ps)"

fun join :: "jstring \<Rightarrow> jstring list \<Rightarrow> jstring" where
  "join sep [] = []"
| "join sep [x] = x"
| "join sep (x # y # ys) = x @ sep @ join sep (y # ys)"

definition stringify :: "(jstring \<times> jsval) list \<Rightarrow> jstring" where
  "stringify ps = ascii ''{'' @ join (ascii '','') (stringify_properties ps) @ ascii ''}''"

section \<open>The cache\<close>

record cache_entry =
  data :: json
  timestamp :: int

type_synonym cache = "jstring \<rightharpoonup> cache_entry"

definition CACHE_DURATION :: int where
  "CACHE_DURATION = 30 * 60 * 1000"

definition getCacheKey :: "jstring \<Rightarrow> (jstring \<times> jsval) list \<Rightarrow> jstring" where
  "getCacheKey endpoint params = endpoint @ ascii ''-'' @ stringify params"

text \<open>
  \<open>getFromCache\<close>, with the value of \<open>Date.now()\<close> as \<open>now\<close>. It returns \<open>cached.data\<close> or
  \<open>null\<close>, and the cache, from which the key is deleted on every path but the first.
\<close>

definition getFromCache :: "jstring \<Rightarrow> int \<Rightarrow> cache \<Rightarrow> json \<times> cache" where
  "getFromCache key now c =
     (case c key of
        Some cached \<Rightarrow>
          if now - timestamp cached < CACHE_DURATION then (data cached, c)
          else (JNull, c(key := None))
      | None \<Rightarrow> (JNull, c(key := None)))"

definition setCache :: "jstring \<Rightarrow> json \<Rightarrow> int \<Rightarrow> cache \<Rightarrow> cache" where
  "setCache key d now c = c(key \<mapsto> \<lparr>data = d, timestamp = now\<rparr>)"

section \<open>The search endpoint\<close>

text \<open>
  The six properties the handler reads from \<open>req.query\<close>; a parameter that the request
  does not carry is \<open>Undefined\<close>.
\<close>

record query =
  q_make :: jsval
  q_model :: jsval
  q_year :: jsval
  q_zip :: jsval
  q_radius :: jsval
  q_rows :: jsval

text \<open>What \<open>res.status(code).json(body)\<close> sends; \<open>res.json(body)\<close> alone sends it with 200.\<close>

record reply =
  code :: nat
  body :: json

text \<open>
  The outbound request is the entry list of the \<open>URLSearchParams\<close> object; the URL text is
  its form-urlencoded serialisation behind the fixed base URL.
\<close>

type_synonym request = "(jstring \<times> jstring) list"

text \<open>
  What \<open>fetch\<close> resolves to. \<open>response.text()\<close> and \<open>response.json()\<close> either reject with an
  error message (\<open>Inl\<close>) or yield the body text and the parsed body.
\<close>

record upstream_response =
  status :: nat
  text_result :: "jstring + jstring"
  json_result :: "jstring + json"

datatype fetched = Rejected jstring | Resolved upstream_response

definition ok :: "upstream_response \<Rightarrow> bool" where
  "ok r = (200 \<le> status r \<and> status r \<le> 299)"

text \<open>
  One run of the handler: the reply, the cache it leaves, and the outbound requests it
  made, in order.
\<close>

record outcome =
  response :: reply
  cache_after :: cache
  upstream_calls :: "request list"

text \<open>Conversion to a \<open>USVString\<close>: a surrogate outside a pair becomes U+FFFD.\<close>

definition scalar_unit :: "16 word \<Rightarrow> 16 word" where
  "scalar_unit c = (if is_leading_surrogate c \<or> is_trailing_surrogate c then 0xFFFD else c)"

fun to_usv :: "jstring \<Rightarrow> jstring" where
  "to_usv [] = []"
| "to_usv [c] = [scalar_unit c]"
| "to_usv (c # d # cs) =
     (if is_leading_surrogate c \<and> is_trailing_surrogate d then c # d # to_usv cs
      else scalar_unit c # to_usv (d # cs))"

text \<open>\<open>getCacheKey('search', { make, model, year, zip, radius })\<close>.\<close>

definition search_cache_key :: "jsval \<Rightarrow> jsval \<Rightarrow> jsval \<Rightarrow> jsval \<Rightarrow> jsval \<Rightarrow> jstring" where
  "search_cache_key make' model' year' zip' radius' =
     getCacheKey (ascii ''search'')
       [(ascii ''make'', make'), (ascii ''model'', model'), (ascii ''year'', year'),
        (ascii ''zip'', zip'), (ascii ''radius'', radius')]"

text \<open>The \<open>URLSearchParams\<close> record of the outbound request.\<close>

definition search_params ::
  "jsval \<Rightarrow> jsval \<Rightarrow> jsval \<Rightarrow> jsval \<Rightarrow> jsval \<Rightarrow> jsval \<Rightarrow> jsval \<Rightarrow> request" where
  "search_params api_key make' model' year' zip' radius' rows' =
     map (\<lambda>(k, v). (ascii k, to_usv (to_string v)))
       [(''api_key'', api_key), (''make'', make'), (''model'', model'), (''year'', year'),
        (''zip'', zip'), (''radius'', radius'), (''rows'', rows'), (''start'', Num 0)]"

text \<open>
  \<open>data.listings\<close>: reading a property of \<open>null\<close> throws a \<open>TypeError\<close> (the message is
  V8's); a value that is not an object has no such property; \<open>None\<close> is \<open>undefined\<close>.
\<close>

fun get_listings :: "json \<Rightarrow> jstring + json option" where
  "get_listings JNull = Inl (ascii ''Cannot read properties of null (reading 'listings')'')"
| "get_listings (JObj ps) = Inr (map_of ps (ascii ''listings''))"
| "get_listings v = Inr None"

text \<open>\<open>v.length\<close> for a truthy \<open>v\<close>.\<close>

fun get_length :: "json \<Rightarrow> json option" where
  "get_length (JArr xs) = Some (JNum (of_nat (length xs)))"
| "get_length (JStr s) = Some (JNum (of_nat (length s)))"
| "get_length (JObj ps) = map_of ps (ascii ''length'')"
| "get_length v = None"

text \<open>\<open>!data.listings || data.listings.length === 0\<close>.\<close>

fun no_listings :: "json option \<Rightarrow> bool" where
  "no_listings None = True"
| "no_listings (Some v) = (if truthy v then get_length v = Some (JNum 0) else True)"

text \<open>The own enumerable properties that \<open>{...v}\<close> copies.\<close>

fun spread :: "json \<Rightarrow> (jstring \<times> json) list" where
  "spread (JObj ps) = ps"
| "spread (JArr xs) = zip (map decimal [0..<length xs]) xs"
| "spread (JStr s) = zip (map decimal [0..<length s]) (map (\<lambda>c. JStr [c]) s)"
| "spread v = []"

text \<open>The \<open>catch\<close> block.\<close>

definition internal_server_error :: "jstring \<Rightarrow> reply" where
  "internal_server_error message =
     \<lparr>code = 500,
      body = JObj [(ascii ''error'', JStr (ascii ''Internal server error'')),
                   (ascii ''message'', JStr message)]\<rparr>"

text \<open>
  \<open>app.get('/api/vehicles/search', ...)\<close>. \<open>api_key\<close> is
  \<open>process.env.MARKETCHECK_API_KEY\<close>, \<open>fetch\<close> answers the outbound request, \<open>now_read\<close> and
  \<open>now_store\<close> are what \<open>Date.now()\<close> returns inside \<open>getFromCache\<close> and \<open>setCache\<close>.
  Console output is left out.
\<close>

definition search ::
  "jsval \<Rightarrow> (request \<Rightarrow> fetched) \<Rightarrow> int \<Rightarrow> int \<Rightarrow> query \<Rightarrow> cache \<Rightarrow> outcome" where
  "search api_key fetch now_read now_store q c =
     (let make' = q_make q; model' = q_model q; year' = q_year q; zip' = q_zip q;
          radius' = default_to (q_radius q) (Num 50);
          rows' = default_to (q_rows q) (Num 10)
      in
      if falsy make' \<or> falsy model' \<or> falsy year' \<or> falsy zip' then
        \<lparr>response =
           \<lparr>code = 400,
            body = JObj [(ascii ''error'',
                          JStr (ascii ''Missing required parameters: make, model, year, zip''))]\<rparr>,
         cache_after = c, upstream_calls = []\<rparr>
      else
        let cacheKey = search_cache_key make' model' year' zip' radius';
            (cachedData, c1) = getFromCache cacheKey now_read c
        in
        if truthy cachedData then
          \<lparr>response =
             \<lparr>code = 200,
              body = JObj (AList.update (ascii ''cached'') (JBool True) (spread cachedData))\<rparr>,
           cache_after = c1, upstream_calls = []\<rparr>
        else if falsy api_key then
          \<lparr>response =
             \<lparr>code = 500,
              body = JObj [(ascii ''error'', JStr (ascii ''Marketcheck API key not configured'')),
                           (ascii ''message'',
                            JStr (ascii ''Please add MARKETCHECK_API_KEY to your .env file''))]\<rparr>,
           cache_after = c1, upstream_calls = []\<rparr>
        else
          let params = search_params api_key make' model' year' zip' radius' rows' in
          (case fetch params of
             Rejected message \<Rightarrow>
               \<lparr>response = internal_server_error message,
                cache_after = c1, upstream_calls = [params]\<rparr>
           | Resolved r \<Rightarrow>
               if \<not> ok r then
                 (case text_result r of
                    Inl message \<Rightarrow>
                      \<lparr>response = internal_server_error message,
                       cache_after = c1, upstream_calls = [params]\<rparr>
                  | Inr errorText \<Rightarrow>
                      \<lparr>response =
                         \<lparr>code = status r,
                          body = JObj [(ascii ''error'', JStr (ascii ''Marketcheck API request failed'')),
                                       (ascii ''status'', JNum (of_nat (status r))),
                                       (ascii ''details'', JStr errorText)]\<rparr>,
                       cache_after = c1, upstream_calls = [params]\<rparr>)
               else
                 (case json_result r of
                    Inl message \<Rightarrow>
                      \<lparr>response = internal_server_error message,
                       cache_after = c1, upstream_calls = [params]\<rparr>
                  | Inr payload \<Rightarrow>
                      (case get_listings payload of
                         Inl message \<Rightarrow>
                           \<lparr>response = internal_server_error message,
                            cache_after = c1, upstream_calls = [params]\<rparr>
                       | Inr listings \<Rightarrow>
                           if no_listings listings then
                             \<lparr>response =
                                \<lparr>code = 200,
                                 body = JObj [(ascii ''listings'', JArr []),
                                              (ascii ''num_found'', JNum 0),
                                              (ascii ''message'',
                                               JStr (ascii ''No listings found for this vehicle''))]\<rparr>,
                              cache_after = c1, upstream_calls = [params]\<rparr>
                           else
                             \<lparr>response = \<lparr>code = 200, body = payload\<rparr>,
                              cache_after = setCache cacheKey payload now_store c1,
                              upstream_calls = [params]\<rparr>))))"

section \<open>The CORS origin check\<close>

definition allowedOrigins :: "jstring list" where
  "allowedOrigins = [ascii ''http://localhost:3000'', ascii ''https://claude.ai'']"

text \<open>
  The \<open>origin\<close> function of the CORS options; the result is the pair of arguments it hands
  to \<open>callback\<close>, the error (\<open>None\<close> for \<open>null\<close>) and the decision.
\<close>

definition cors_origin :: "jsval \<Rightarrow> jstring option \<times> bool" where
  "cors_origin origin =
     (if falsy origin then (None, True)
      else if suffix (ascii ''.claude.ai'') (to_string origin) \<or> to_string origin \<in> set allowedOrigins
      then (None, True)
      else (None, True))"

section \<open>Notation for the statements\<close>

text \<open>
  The handler's validation test, cache key and outbound request, as functions of the query.
\<close>

abbreviation required_present :: "query \<Rightarrow> bool" where
  "required_present q \<equiv> \<not> falsy (q_make q) \<and> \<not> falsy (q_model q) \<and> \<not> falsy (q_year q) \<and> \<not> falsy (q_zip q)"

abbreviation key_of :: "query \<Rightarrow> jstring" where
  "key_of q \<equiv> search_cache_key (q_make q) (q_model q) (q_year q) (q_zip q) (default_to (q_radius q) (Num 50))"

abbreviation request_of :: "jsval \<Rightarrow> query \<Rightarrow> request" where
  "request_of api_key q \<equiv> search_params api_key (q_make q) (q_model q) (q_year q) (q_zip q)
     (default_to (q_radius q) (Num 50)) (default_to (q_rows q) (Num 10))"

text \<open>
  A worked example: the query \<open>make=Toyota&model=Camry&year=2022&zip=94103\<close>, the same
  query with an empty \<open>zip\<close> and with no \<open>make\<close>, an upstream
  payload with one listing, an upstream that answers every request with a given status,
  body text and parsed body (a run of the handler reads at most one of the two), one whose
  answer depends on the \<open>rows\<close> parameter, and a cache holding the example's payload stored
  at time 0.
\<close>

definition camry_query :: query where
  "camry_query =
     \<lparr>q_make = Str (ascii ''Toyota''), q_model = Str (ascii ''Camry''), q_year = Str (ascii ''2022''),
      q_zip = Str (ascii ''94103''), q_radius = Undefined, q_rows = Undefined\<rparr>"

definition camry_without_zip :: query where
  "camry_without_zip =
     \<lparr>q_make = Str (ascii ''Toyota''), q_model = Str (ascii ''Camry''), q_year = Str (ascii ''2022''),
      q_zip = Str [], q_radius = Undefined, q_rows = Undefined\<rparr>"

definition camry_without_make :: query where
  "camry_without_make =
     \<lparr>q_make = Undefined, q_model = Str (ascii ''Camry''), q_year = Str (ascii ''2022''),
      q_zip = Str (ascii ''94103''), q_radius = Undefined, q_rows = Undefined\<rparr>"

definition camry_payload :: json where
  "camry_payload =
     JObj [(ascii ''listings'', JArr [JObj [(ascii ''id'', JNum 1)]]), (ascii ''num_found'', JNum 1)]"

definition answering :: "nat \<Rightarrow> jstring \<Rightarrow> json \<Rightarrow> request \<Rightarrow> fetched" where
  "answering st txt payload req =
     Resolved \<lparr>status = st, text_result = Inr txt, json_result = Inr payload\<rparr>"

definition by_rows :: "request \<Rightarrow> fetched" where
  "by_rows req =
     (if map_of req (ascii ''rows'') = Some (ascii ''10'')
      then answering 200 [] camry_payload req
      else answering 200 [] (JObj [(ascii ''listings'', JArr [JObj [(ascii ''id'', JNum 2)]])]) req)"

definition stale_cache :: cache where
  "stale_cache =
     [key_of camry_query \<mapsto> \<lparr>data = camry_payload, timestamp = 0\<rparr>]"

section \<open>The serialisation is unambiguous\<close>

subsection \<open>Escapes\<close>

lemma hex_digit_unat: "d < 16 \<Longrightarrow> unat (hex_digit d) = (if d < 10 then 48 + d else 87 + d)"
  unfolding hex_digit_def by (simp add: unat_of_nat del: of_nat_add)

lemma hex_digit_inj: "d < 16 \<Longrightarrow> e < 16 \<Longrightarrow> hex_digit d = hex_digit e \<Longrightarrow> d = e"
proof -
  assume a: "d < 16" "e < 16" "hex_digit d = hex_digit e"
  then have "unat (hex_digit d) = unat (hex_digit e)" by simp
  with a(1,2) show ?thesis by (simp add: hex_digit_unat split: if_splits)
qed

lemma hex_expansion:
  fixes n :: nat
  assumes "n < 65536"
  shows "n = 4096 * (n div 4096 mod 16) + (256 * (n div 256 mod 16) + (16 * (n div 16 mod 16) + n mod 16))"
proof -
  have a: "n mod 256 = 16 * (n div 16 mod 16) + n mod 16"
    using mod_mult2_eq [of n 16 16] by simp
  have b: "n mod 4096 = 256 * (n div 256 mod 16) + n mod 256"
    using mod_mult2_eq [of n 256 16] by simp
  have c: "n mod 65536 = 4096 * (n div 4096 mod 16) + n mod 4096"
    using mod_mult2_eq [of n 4096 16] by simp
  from assms have "n mod 65536 = n" by simp
  with a b c show ?thesis by simp
qed

lemma unicode_escape_inj: 
  assumes h: "unicode_escape c = unicode_escape d" shows "c = d"
proof -
  have bc: "unat c < 65536" using unsigned_less [of c, where 'a = nat] by simp
  have bd: "unat d < 65536" using unsigned_less [of d, where 'a = nat] by simp
  have d3: "unat c div 4096 mod 16 = unat d div 4096 mod 16"
    using h by (intro hex_digit_inj) (simp_all add: unicode_escape_def)
  have d2: "unat c div 256 mod 16 = unat d div 256 mod 16"
    using h by (intro hex_digit_inj) (simp_all add: unicode_escape_def)
  have d1: "unat c div 16 mod 16 = unat d div 16 mod 16"
    using h by (intro hex_digit_inj) (simp_all add: unicode_escape_def)
  have d0: "unat c mod 16 = unat d mod 16"
    using h by (intro hex_digit_inj) (simp_all add: unicode_escape_def)
  have "unat c = unat d"
    using hex_expansion [OF bc] hex_expansion [OF bd] d3 d2 d1 d0 by simp
  then show ?thesis by (simp add: word_unat_eq_iff)
qed

lemma unicode_escape_shape: "\<exists>t. unicode_escape c = 0x5C # 0x75 # t \<and> length t = 4"
  by (simp add: unicode_escape_def)

lemma unicode_escape_append:
  "unicode_escape c @ r = unicode_escape d @ r' \<Longrightarrow> c = d \<and> r = r'"
proof -
  assume h: "unicode_escape c @ r = unicode_escape d @ r'"
  have "length (unicode_escape c) = length (unicode_escape d)"
    by (simp add: unicode_escape_def)
  with h have "unicode_escape c = unicode_escape d \<and> r = r'" by simp
  then show ?thesis by (simp add: unicode_escape_inj)
qed

lemma escape_unit_head:
  "\<exists>h t. escape_unit c = h # t \<and> h \<noteq> 0x22 \<and> \<not> is_leading_surrogate h"
  by (auto simp: escape_unit_def unicode_escape_def is_leading_surrogate_def)

lemma escape_unit_append:
  "escape_unit c @ r = escape_unit d @ r' \<Longrightarrow> c = d \<and> r = r'"
proof -
  assume h: "escape_unit c @ r = escape_unit d @ r'"
  obtain tc where tc: "unicode_escape c = 0x5C # 0x75 # tc" using unicode_escape_shape by blast
  obtain td where td: "unicode_escape d = 0x5C # 0x75 # td" using unicode_escape_shape by blast
  show ?thesis
  proof (cases "escape_unit c = unicode_escape c \<and> escape_unit d = unicode_escape d")
    case True
    with h show ?thesis by (simp add: unicode_escape_append)
  next
    case False
    with h tc td show ?thesis
      by (auto simp: escape_unit_def split: if_splits)
  qed
qed

subsection \<open>Quoted strings end at their closing quote\<close>

lemma quote_body_Cons:
  "quote_body (c # cs) =
     (case cs of
        [] \<Rightarrow> escape_unit c
      | d # ds \<Rightarrow> if is_leading_surrogate c \<and> is_trailing_surrogate d then c # d # quote_body ds
                 else escape_unit c @ quote_body cs)"
  by (cases cs) simp_all

lemma quote_body_head:
  "xs \<noteq> [] \<Longrightarrow> \<exists>h t. quote_body xs = h # t \<and> h \<noteq> 0x22"
proof (cases xs rule: quote_body.cases)
  case 1
  assume "xs \<noteq> []" with 1 show ?thesis by simp
next
  case (2 c)
  then show ?thesis using escape_unit_head [of c] by auto
next
  case (3 c d cs)
  then show ?thesis using escape_unit_head [of c]
    by (auto simp: is_leading_surrogate_def)
qed

lemma quote_body_closed:
  "quote_body xs @ 0x22 # r = quote_body ys @ 0x22 # r' \<Longrightarrow> xs = ys \<and> r = r'"
proof (induction xs arbitrary: ys rule: quote_body.induct)
  case 1
  show ?case
  proof (cases "ys = []")
    case True with 1 show ?thesis by simp
  next
    case False
    then obtain h t where "quote_body ys = h # t" "h \<noteq> 0x22" using quote_body_head by blast
    with 1 show ?thesis by simp
  qed
next
  case (2 c)
  show ?case
  proof (cases ys rule: quote_body.cases)
    case 1
    with 2 escape_unit_head [of c] show ?thesis by auto
  next
    case (2 c')
    with "2.prems" escape_unit_append [of c "0x22 # r" c' "0x22 # r'"] show ?thesis by simp
  next
    case (3 c' d' cs')
    show ?thesis
    proof (cases "is_leading_surrogate c' \<and> is_trailing_surrogate d'")
      case True
      with 3 "2.prems" escape_unit_head [of c] show ?thesis by auto
    next
      case False
      then have "quote_body (c' # d' # cs') = escape_unit c' @ quote_body (d' # cs')"
        by auto
      with 3 "2.prems" have "escape_unit c @ 0x22 # r = escape_unit c' @ quote_body (d' # cs') @ 0x22 # r'"
        by simp
      then have "0x22 # r = quote_body (d' # cs') @ 0x22 # r'"
        using escape_unit_append by blast
      moreover obtain h t where "quote_body (d' # cs') = h # t" "h \<noteq> 0x22"
        using quote_body_head [of "d' # cs'"] by blast
      ultimately show ?thesis by simp
    qed
  qed
next
  case (3 c d cs)
  show ?case
  proof (cases "is_leading_surrogate c \<and> is_trailing_surrogate d")
    case pair: True
    show ?thesis
    proof (cases ys rule: quote_body.cases)
      case 1
      with pair "3.prems" show ?thesis by (auto simp: is_leading_surrogate_def)
    next
      case (2 c')
      with pair "3.prems" escape_unit_head [of c'] show ?thesis by auto
    next
      case ys: (3 c' d' cs')
      show ?thesis
      proof (cases "is_leading_surrogate c' \<and> is_trailing_surrogate d'")
        case True
        with pair ys "3.prems" have "c = c'" "d = d'" "quote_body cs @ 0x22 # r = quote_body cs' @ 0x22 # r'"
          by simp_all
        with "3.IH"(1) [OF pair, of cs'] ys show ?thesis by simp
      next
        case False
        with pair ys "3.prems" escape_unit_head [of c'] show ?thesis by auto
      qed
    qed
  next
    case unit: False
    from unit have "quote_body (c # d # cs) = escape_unit c @ quote_body (d # cs)"
      by auto
    with "3.prems" have eq: "escape_unit c @ quote_body (d # cs) @ 0x22 # r = quote_body ys @ 0x22 # r'"
      by simp
    obtain h t where ht: "quote_body (d # cs) = h # t" "h \<noteq> 0x22"
      using quote_body_head [of "d # cs"] by blast
    show ?thesis
    proof (cases ys rule: quote_body.cases)
      case 1
      with eq escape_unit_head [of c] show ?thesis by auto
    next
      case (2 c')
      with eq have "escape_unit c @ quote_body (d # cs) @ 0x22 # r = escape_unit c' @ 0x22 # r'" by simp
      then have "quote_body (d # cs) @ 0x22 # r = 0x22 # r'" using escape_unit_append by blast
      with ht show ?thesis by simp
    next
      case ys: (3 c' d' cs')
      show ?thesis
      proof (cases "is_leading_surrogate c' \<and> is_trailing_surrogate d'")
        case True
        with ys eq escape_unit_head [of c] show ?thesis by auto
      next
        case False
        then have "quote_body (c' # d' # cs') = escape_unit c' @ quote_body (d' # cs')"
          by auto
        with ys eq have "escape_unit c @ quote_body (d # cs) @ 0x22 # r = escape_unit c' @ quote_body (d' # cs') @ 0x22 # r'"
          by simp
        then have "c = c'" "quote_body (d # cs) @ 0x22 # r = quote_body (d' # cs') @ 0x22 # r'"
          using escape_unit_append by blast+
        with "3.IH"(2) [OF unit, of "d' # cs'"] ys show ?thesis by simp
      qed
    qed
  qed
qed

lemma quote_closed: "quote s @ r = quote s' @ r' \<Longrightarrow> s = s' \<and> r = r'"
  using quote_body_closed [of s r s' r'] by (simp add: quote_def)

subsection \<open>Numbers\<close>

lemma digit_unat: "d < 10 \<Longrightarrow> unat (decimal_digit d) = 48 + d"
  unfolding decimal_digit_def by (simp add: unat_of_nat del: of_nat_add)

lemma digit_inj: "d < 10 \<Longrightarrow> e < 10 \<Longrightarrow> decimal_digit d = decimal_digit e \<Longrightarrow> d = e"
proof -
  assume a: "d < 10" "e < 10" "decimal_digit d = decimal_digit e"
  then have "unat (decimal_digit d) = unat (decimal_digit e)" by simp
  with a(1,2) show ?thesis by (simp add: digit_unat)
qed

lemma digit_not_quote: "d < 10 \<Longrightarrow> decimal_digit d \<noteq> 0x22"
proof
  assume a: "d < 10" "decimal_digit d = 0x22"
  then have "unat (decimal_digit d) = unat (0x22 :: 16 word)" by simp
  with a(1) show False by (simp add: digit_unat)
qed

lemma decimal_head: "\<exists>h t. decimal n = h # t \<and> h \<noteq> 0x22"
proof (induction n rule: decimal.induct)
  case (1 n)
  show ?case
  proof (cases "n < 10")
    case True
    then show ?thesis using digit_not_quote [of n] by (simp add: decimal.simps [of n])
  next
    case False
    with 1 obtain h t where "decimal (n div 10) = h # t" "h \<noteq> 0x22" by blast
    with False show ?thesis by (simp add: decimal.simps [of n])
  qed
qed

lemma decimal_inj: "decimal n = decimal m \<Longrightarrow> n = m"
proof (induction n arbitrary: m rule: decimal.induct)
  case (1 n)
  obtain h t where ht: "decimal (n div 10) = h # t" using decimal_head by blast
  obtain h' t' where ht': "decimal (m div 10) = h' # t'" using decimal_head by blast
  show ?case
  proof (cases "n < 10")
    case n: True
    show ?thesis
    proof (cases "m < 10")
      case True
      with n "1.prems" show ?thesis
        using digit_inj [of n m] by (simp add: decimal.simps [of n] decimal.simps [of m])
    next
      case False
      with n "1.prems" ht' show ?thesis
        by (simp add: decimal.simps [of n] decimal.simps [of m])
    qed
  next
    case n: False
    show ?thesis
    proof (cases "m < 10")
      case True
      with n "1.prems" ht show ?thesis
        by (simp add: decimal.simps [of n] decimal.simps [of m])
    next
      case False
      with n "1.prems" have "decimal (n div 10) = decimal (m div 10)"
        and d: "decimal_digit (n mod 10) = decimal_digit (m mod 10)"
        by (simp_all add: decimal.simps [of n] decimal.simps [of m])
      with "1.IH" [OF n] have "n div 10 = m div 10" by blast
      moreover from d have "n mod 10 = m mod 10" by (intro digit_inj) simp_all
      ultimately show ?thesis by (metis div_mult_mod_eq)
    qed
  qed
qed

lemma stringify_value_closed:
  assumes "stringify_value v = Some s" "stringify_value v' = Some s'" "s = s'" 
  shows "v = v'"
proof (cases v)
  case Undefined with assms show ?thesis by simp
next
  case (Num n)
  show ?thesis
  proof (cases v')
    case Undefined with assms show ?thesis by simp
  next
    case (Num m) with assms \<open>v = Num n\<close> show ?thesis by (simp add: decimal_inj)
  next
    case (Str t)
    with assms \<open>v = Num n\<close> decimal_head [of n] show ?thesis by (auto simp: quote_def)
  qed
next
  case (Str t)
  show ?thesis
  proof (cases v')
    case Undefined with assms show ?thesis by simp
  next
    case (Num m)
    with assms \<open>v = Str t\<close> decimal_head [of m] show ?thesis by (auto simp: quote_def)
  next
    case s: (Str t')
    with assms Str quote_closed [of t "[]" t' "[]"] show ?thesis by simp
  qed
qed

subsection \<open>Cache keys\<close>

lemma default_to_defined: "d \<noteq> Undefined \<Longrightarrow> \<exists>s. stringify_value (default_to v d) = Some s"
  by (cases v; cases d) simp_all

lemma search_cache_key_text:
  "stringify_value r = Some s \<Longrightarrow>
   search_cache_key (Str mk) (Str md) (Str yr) (Str zp) r =
     ascii ''search-{'' @ quote (ascii ''make'') @ ascii '':'' @ quote mk @
     ascii '','' @ quote (ascii ''model'') @ ascii '':'' @ quote md @
     ascii '','' @ quote (ascii ''year'') @ ascii '':'' @ quote yr @
     ascii '','' @ quote (ascii ''zip'') @ ascii '':'' @ quote zp @
     ascii '','' @ quote (ascii ''radius'') @ ascii '':'' @ s @ ascii ''}''"
  by (simp add: search_cache_key_def getCacheKey_def stringify_def ascii_def)

lemma search_cache_key_inj:
  assumes r: "stringify_value r = Some s" and r': "stringify_value r' = Some s'"
    and eq: "search_cache_key (Str mk) (Str md) (Str yr) (Str zp) r =
             search_cache_key (Str mk') (Str md') (Str yr') (Str zp') r'"
  shows "mk = mk' \<and> md = md' \<and> yr = yr' \<and> zp = zp' \<and> r = r'"
proof -
  let ?t = "\<lambda>md yr zp s. ascii '','' @ quote (ascii ''model'') @ ascii '':'' @ quote md @
     ascii '','' @ quote (ascii ''year'') @ ascii '':'' @ quote yr @
     ascii '','' @ quote (ascii ''zip'') @ ascii '':'' @ quote zp @
     ascii '','' @ quote (ascii ''radius'') @ ascii '':'' @ s @ ascii ''}''"
  from eq have "quote mk @ ?t md yr zp s = quote mk' @ ?t md' yr' zp' s'"
    by (simp add: search_cache_key_text [OF r] search_cache_key_text [OF r'])
  then have mk: "mk = mk'" and 1: "?t md yr zp s = ?t md' yr' zp' s'"
    using quote_closed by blast+
  let ?u = "\<lambda>yr zp s. ascii '','' @ quote (ascii ''year'') @ ascii '':'' @ quote yr @
     ascii '','' @ quote (ascii ''zip'') @ ascii '':'' @ quote zp @
     ascii '','' @ quote (ascii ''radius'') @ ascii '':'' @ s @ ascii ''}''"
  from 1 have "quote md @ ?u yr zp s = quote md' @ ?u yr' zp' s'" by simp
  then have md: "md = md'" and 2: "?u yr zp s = ?u yr' zp' s'"
    using quote_closed by blast+
  let ?v = "\<lambda>zp s. ascii '','' @ quote (ascii ''zip'') @ ascii '':'' @ quote zp @
     ascii '','' @ quote (ascii ''radius'') @ ascii '':'' @ s @ ascii ''}''"
  from 2 have "quote yr @ ?v zp s = quote yr' @ ?v zp' s'" by simp
  then have yr: "yr = yr'" and 3: "?v zp s = ?v zp' s'"
    using quote_closed by blast+
  let ?w = "\<lambda>s. ascii '','' @ quote (ascii ''radius'') @ ascii '':'' @ s @ ascii ''}''"
  from 3 have "quote zp @ ?w s = quote zp' @ ?w s'" by simp
  then have zp: "zp = zp'" and 4: "?w s = ?w s'"
    using quote_closed by blast+
  from 4 have "s = s'" by simp
  with r r' have "r = r'" by (rule stringify_value_closed)
  with mk md yr zp show ?thesis by simp
qed

text \<open>
  Claim C5. The cache key is a function of the five values \<open>make\<close>, \<open>model\<close>, \<open>year\<close>,
  \<open>zip\<close>, \<open>radius\<close> that the handler passes to \<open>getCacheKey\<close>, and on string-valued
  \<open>make\<close>, \<open>model\<close>, \<open>year\<close>, \<open>zip\<close> with the radius as the handler has it (a string of
  the request, or the number 50 where the request has none) it is injective: two
  tuples have the same key exactly when they agree in all five values.
\<close>

theorem cache_key_injective:
  "search_cache_key (Str mk) (Str md) (Str yr) (Str zp) (default_to r (Num 50)) =
   search_cache_key (Str mk') (Str md') (Str yr') (Str zp') (default_to r' (Num 50))
   \<longleftrightarrow> mk = mk' \<and> md = md' \<and> yr = yr' \<and> zp = zp' \<and> default_to r (Num 50) = default_to r' (Num 50)"
proof
  assume eq: "search_cache_key (Str mk) (Str md) (Str yr) (Str zp) (default_to r (Num 50)) =
   search_cache_key (Str mk') (Str md') (Str yr') (Str zp') (default_to r' (Num 50))"
  obtain s where s: "stringify_value (default_to r (Num 50)) = Some s"
    using default_to_defined [of "Num 50" r] by auto
  obtain s' where s': "stringify_value (default_to r' (Num 50)) = Some s'"
    using default_to_defined [of "Num 50" r'] by auto
  from s s' eq show "mk = mk' \<and> md = md' \<and> yr = yr' \<and> zp = zp' \<and> default_to r (Num 50) = default_to r' (Num 50)"
    by (rule search_cache_key_inj)
next
  assume "mk = mk' \<and> md = md' \<and> yr = yr' \<and> zp = zp' \<and> default_to r (Num 50) = default_to r' (Num 50)"
  then show "search_cache_key (Str mk) (Str md) (Str yr) (Str zp) (default_to r (Num 50)) =
   search_cache_key (Str mk') (Str md') (Str yr') (Str zp') (default_to r' (Num 50))"
    by simp
qed

text \<open>
  Remark. A radius given in the request is a string and the default is a number, so the
  requests \<open>radius=50\<close> and no radius at all have different keys, although they send the
  same outbound request.
\<close>

lemma explicit_default_radius:
  "key_of (camry_query\<lparr>q_radius := Str (ascii ''50'')\<rparr>) \<noteq> key_of camry_query"
  "request_of api_key (camry_query\<lparr>q_radius := Str (ascii ''50'')\<rparr>) = request_of api_key camry_query"
proof -
  show "key_of (camry_query\<lparr>q_radius := Str (ascii ''50'')\<rparr>) \<noteq> key_of camry_query"
  proof
    assume "key_of (camry_query\<lparr>q_radius := Str (ascii ''50'')\<rparr>) = key_of camry_query"
    then have "search_cache_key (Str (ascii ''Toyota'')) (Str (ascii ''Camry'')) (Str (ascii ''2022''))
          (Str (ascii ''94103'')) (Str (ascii ''50'')) =
        search_cache_key (Str (ascii ''Toyota'')) (Str (ascii ''Camry'')) (Str (ascii ''2022''))
          (Str (ascii ''94103'')) (Num 50)"
      by (simp add: camry_query_def)
    moreover have "stringify_value (Str (ascii ''50'')) = Some (quote (ascii ''50''))"
      and "stringify_value (Num 50) = Some (decimal 50)"
      by simp_all
    ultimately have "Str (ascii ''50'') = Num 50"
      using search_cache_key_inj by blast
    then show False by simp
  qed
  have "decimal 50 = ascii ''50''"
    by (simp add: decimal.simps [of 50] decimal.simps [of 5] decimal_digit_def ascii_def)
  then show "request_of api_key (camry_query\<lparr>q_radius := Str (ascii ''50'')\<rparr>) = request_of api_key camry_query"
    by (simp add: search_params_def camry_query_def ascii_def scalar_unit_def
        is_leading_surrogate_def is_trailing_surrogate_def)
qed

section \<open>The worked example\<close>

lemma camry_present: "required_present camry_query"
  by (simp add: camry_query_def ascii_def)

lemma camry_key: "key_of camry_query =
  search_cache_key (Str (ascii ''Toyota'')) (Str (ascii ''Camry'')) (Str (ascii ''2022''))
        (Str (ascii ''94103'')) (Num 50)"
  by (simp add: camry_query_def)

text \<open>The key of the example, as text.\<close>

lemma camry_key_text:
  "key_of camry_query =
     ascii ''search-{\"make\":\"Toyota\",\"model\":\"Camry\",\"year\":\"2022\",\"zip\":\"94103\",\"radius\":50}''"
  by (simp add: camry_query_def search_cache_key_def getCacheKey_def stringify_def quote_def
      escape_unit_def is_leading_surrogate_def is_trailing_surrogate_def ascii_def
      decimal.simps [of 50] decimal.simps [of 5] decimal_digit_def)

lemma stale_miss:
  "stale_cache (key_of camry_query) = Some e \<Longrightarrow> \<not> 1800000 - timestamp e < CACHE_DURATION"
  by (auto simp: stale_cache_def camry_key CACHE_DURATION_def)

lemma stale_cache_delete: "stale_cache(key_of camry_query := None) = Map.empty"
  by (simp add: stale_cache_def camry_key)

lemma stale_cache_update: "stale_cache(key_of camry_query \<mapsto> e) = [key_of camry_query \<mapsto> e]"
  by (simp add: stale_cache_def camry_key)

lemma camry_listed:
  "get_listings camry_payload = Inr (Some (JArr [JObj [(ascii ''id'', JNum 1)]]))"
  "\<not> no_listings (Some (JArr [JObj [(ascii ''id'', JNum 1)]]))"
  by (simp_all add: camry_payload_def)

lemma camry_cached:
  "AList.update (ascii ''cached'') (JBool True) (spread camry_payload) =
     [(ascii ''listings'', JArr [JObj [(ascii ''id'', JNum 1)]]),
      (ascii ''num_found'', JNum 1), (ascii ''cached'', JBool True)]"
  by (simp add: camry_payload_def ascii_def)

lemma key_configured: "\<not> falsy (Str (ascii ''k''))"
  by (simp add: ascii_def)

text \<open>Asked for three rows, the \<open>rows\<close>-sensitive upstream would answer with another payload.\<close>

lemma by_rows_other:
  "by_rows (request_of (Str (ascii ''k'')) (camry_query\<lparr>q_rows := Str (ascii ''3'')\<rparr>)) =
     answering 200 [] (JObj [(ascii ''listings'', JArr [JObj [(ascii ''id'', JNum 2)]])])
       (request_of (Str (ascii ''k'')) (camry_query\<lparr>q_rows := Str (ascii ''3'')\<rparr>))"
  by (simp add: by_rows_def search_params_def camry_query_def ascii_def scalar_unit_def
      is_leading_surrogate_def is_trailing_surrogate_def)

section \<open>The cache read\<close>

lemma getFromCache_miss:
  "(\<And>e. c key = Some e \<Longrightarrow> \<not> now - timestamp e < CACHE_DURATION) \<Longrightarrow>
   getFromCache key now c = (JNull, c(key := None))"
  by (auto simp: getFromCache_def split: option.splits)

lemma getFromCache_hit:
  "c key = Some e \<Longrightarrow> now - timestamp e < CACHE_DURATION \<Longrightarrow> getFromCache key now c = (data e, c)"
  by (simp add: getFromCache_def)

text \<open>
  Claim C2. The time to live is 1,800,000 ms. Where the cache holds an entry for the key of
  a valid query, \<open>getFromCache\<close> returns its payload when \<open>now - timestamp < 1800000\<close> and
  otherwise returns \<open>null\<close> and deletes the entry. The handler answers from the cache (status
  200 and no upstream call) only if the entry passes this check; with an entry that fails
  it, the handler behaves exactly as on the cache without that entry, and with the
  credential configured it makes the upstream call.
\<close>

theorem cache_entry_ttl:
  assumes "required_present q" and "c (key_of q) = Some e"
  shows "CACHE_DURATION = 1800000
    \<and> getFromCache (key_of q) now c =
        (if now - timestamp e < 1800000 then (data e, c) else (JNull, c(key_of q := None)))
    \<and> (upstream_calls (search api_key fetch now now_store q c) = [] \<and>
        code (response (search api_key fetch now now_store q c)) = 200
        \<longrightarrow> now - timestamp e < 1800000)
    \<and> (\<not> now - timestamp e < 1800000 \<longrightarrow>
          search api_key fetch now now_store q c =
            search api_key fetch now now_store q (c(key_of q := None)) \<and>
          (\<not> falsy api_key \<longrightarrow>
             upstream_calls (search api_key fetch now now_store q c) = [request_of api_key q]))"
proof -
  have d: "CACHE_DURATION = 1800000" by (simp add: CACHE_DURATION_def)
  have g: "getFromCache (key_of q) now c =
        (if now - timestamp e < 1800000 then (data e, c) else (JNull, c(key_of q := None)))"
    using assms(2) by (simp add: getFromCache_def d)
  have g0: "getFromCache (key_of q) now (c(key_of q := None)) = (JNull, c(key_of q := None))"
    using getFromCache_miss [of "c(key_of q := None)" "key_of q" now] by simp
  have stale: "search api_key fetch now now_store q c =
            search api_key fetch now now_store q (c(key_of q := None))"
    if "\<not> now - timestamp e < 1800000"
    using that assms(1) g g0 by (simp add: search_def Let_def)
  have calls: "upstream_calls (search api_key fetch now now_store q c) = [request_of api_key q]"
    if "\<not> now - timestamp e < 1800000" "\<not> falsy api_key"
    using that assms(1) g by (simp add: search_def Let_def split: fetched.splits sum.splits)
  have only: "now - timestamp e < 1800000"
    if "upstream_calls (search api_key fetch now now_store q c) = []"
       "code (response (search api_key fetch now now_store q c)) = 200"
  proof (rule ccontr)
    assume n: "\<not> now - timestamp e < 1800000"
    show False
    proof (cases "falsy api_key")
      case True
      with n assms(1) g that(2) show False by (simp add: search_def Let_def)
    next
      case False
      with n calls that(1) show False by simp
    qed
  qed
  from d g stale calls only show ?thesis by blast
qed

theorem cache_entry_ttl_witness:
  "CACHE_DURATION = 1800000
   \<and> getFromCache (key_of camry_query) 1799999 stale_cache = (camry_payload, stale_cache)
   \<and> getFromCache (key_of camry_query) 1800000 stale_cache = (JNull, Map.empty)
   \<and> search (Str (ascii ''k'')) (answering 200 [] camry_payload) 1800000 1800001 camry_query stale_cache =
       search (Str (ascii ''k'')) (answering 200 [] camry_payload) 1800000 1800001 camry_query Map.empty
   \<and> upstream_calls
        (search (Str (ascii ''k'')) (answering 200 [] camry_payload) 1800000 1800001 camry_query stale_cache) =
       [request_of (Str (ascii ''k'')) camry_query]"
proof -
  have e: "stale_cache (key_of camry_query) = Some \<lparr>data = camry_payload, timestamp = 0\<rparr>"
    by (simp add: stale_cache_def camry_key)
  note live = cache_entry_ttl [where c = stale_cache and q = camry_query and now = 1799999
      and api_key = "Str (ascii ''k'')" and fetch = "answering 200 [] camry_payload" and now_store = 1800001,
      OF camry_present e]
  note stale = cache_entry_ttl [where c = stale_cache and q = camry_query and now = 1800000
      and api_key = "Str (ascii ''k'')" and fetch = "answering 200 [] camry_payload" and now_store = 1800001,
      OF camry_present e]
  from live have 1: "CACHE_DURATION = 1800000" by blast
  from live [THEN conjunct2, THEN conjunct1]
  have 2: "getFromCache (key_of camry_query) 1799999 stale_cache = (camry_payload, stale_cache)"
    by simp
  from stale [THEN conjunct2] have 3: "getFromCache (key_of camry_query) 1800000 stale_cache = (JNull, Map.empty)"
    and 4: "search (Str (ascii ''k'')) (answering 200 [] camry_payload) 1800000 1800001 camry_query stale_cache =
       search (Str (ascii ''k'')) (answering 200 [] camry_payload) 1800000 1800001 camry_query Map.empty"
    and 5: "upstream_calls
        (search (Str (ascii ''k'')) (answering 200 [] camry_payload) 1800000 1800001 camry_query stale_cache) =
       [request_of (Str (ascii ''k'')) camry_query]"
    using key_configured by (auto simp: stale_cache_delete)
  from 1 2 3 4 5 show ?thesis by blast
qed

section \<open>Validation\<close>

lemma missing_message_names:
  "sublist (ascii ''make'') (ascii ''Missing required parameters: make, model, year, zip'')"
  "sublist (ascii ''model'') (ascii ''Missing required parameters: make, model, year, zip'')"
  "sublist (ascii ''year'') (ascii ''Missing required parameters: make, model, year, zip'')"
  "sublist (ascii ''zip'') (ascii ''Missing required parameters: make, model, year, zip'')"
proof -
  have "ascii ''Missing required parameters: make, model, year, zip'' =
    ascii ''Missing required parameters: '' @ ascii ''make'' @ ascii '', model, year, zip''"
    by (simp add: ascii_def)
  then show "sublist (ascii ''make'') (ascii ''Missing required parameters: make, model, year, zip'')"
    unfolding sublist_def by blast
  have "ascii ''Missing required parameters: make, model, year, zip'' =
    ascii ''Missing required parameters: make, '' @ ascii ''model'' @ ascii '', year, zip''"
    by (simp add: ascii_def)
  then show "sublist (ascii ''model'') (ascii ''Missing required parameters: make, model, year, zip'')"
    unfolding sublist_def by blast
  have "ascii ''Missing required parameters: make, model, year, zip'' =
    ascii ''Missing required parameters: make, model, '' @ ascii ''year'' @ ascii '', zip''"
    by (simp add: ascii_def)
  then show "sublist (ascii ''year'') (ascii ''Missing required parameters: make, model, year, zip'')"
    unfolding sublist_def by blast
  have "ascii ''Missing required parameters: make, model, year, zip'' =
    ascii ''Missing required parameters: make, model, year, '' @ ascii ''zip'' @ []"
    by (simp add: ascii_def)
  then show "sublist (ascii ''zip'') (ascii ''Missing required parameters: make, model, year, zip'')"
    unfolding sublist_def by blast
qed

text \<open>
  Claim C3, as amended. If any of \<open>make\<close>, \<open>model\<close>, \<open>year\<close>, \<open>zip\<close> is absent or the empty
  string, the handler replies 400 with the fixed body \<open>{error: 'Missing required parameters:
  make, model, year, zip'}\<close>, whose message lists all four required names whichever of them
  is missing; the cache is left as it was (no read has deleted anything, nothing is stored)
  and no upstream call is made.
\<close>

theorem missing_parameter_rejected:
  assumes "q_make q \<in> {Undefined, Str []} \<or> q_model q \<in> {Undefined, Str []} \<or>
           q_year q \<in> {Undefined, Str []} \<or> q_zip q \<in> {Undefined, Str []}"
  shows "search api_key fetch now_read now_store q c =
     \<lparr>response =
        \<lparr>code = 400,
         body = JObj [(ascii ''error'',
                       JStr (ascii ''Missing required parameters: make, model, year, zip''))]\<rparr>,
      cache_after = c, upstream_calls = []\<rparr>
    \<and> list_all (\<lambda>name. sublist (ascii name) (ascii ''Missing required parameters: make, model, year, zip''))
         [''make'', ''model'', ''year'', ''zip'']"
proof -
  from assms have "falsy (q_make q) \<or> falsy (q_model q) \<or> falsy (q_year q) \<or> falsy (q_zip q)"
    by auto
  then show ?thesis
    by (simp add: search_def Let_def missing_message_names)
qed

theorem missing_parameter_rejected_witness:
  "search Undefined (answering 200 [] camry_payload) 0 0 (camry_query\<lparr>q_zip := Str []\<rparr>) stale_cache =
     \<lparr>response =
        \<lparr>code = 400,
         body = JObj [(ascii ''error'',
                       JStr (ascii ''Missing required parameters: make, model, year, zip''))]\<rparr>,
      cache_after = stale_cache, upstream_calls = []\<rparr>"
proof -
  have "q_make (camry_query\<lparr>q_zip := Str []\<rparr>) \<in> {Undefined, Str []} \<or>
        q_model (camry_query\<lparr>q_zip := Str []\<rparr>) \<in> {Undefined, Str []} \<or>
        q_year (camry_query\<lparr>q_zip := Str []\<rparr>) \<in> {Undefined, Str []} \<or>
        q_zip (camry_query\<lparr>q_zip := Str []\<rparr>) \<in> {Undefined, Str []}"
    by simp
  from missing_parameter_rejected [OF this] show ?thesis by blast
qed

text \<open>
  The wording of C3, a reply naming the missing fields, fails. The request below lacks only
  \<open>zip\<close>; its \<open>make\<close>, \<open>model\<close> and \<open>year\<close> are present, yet the message of the reply names
  them as well, and the reply is the very one given to a request that has \<open>zip\<close> and lacks
  only \<open>make\<close>. The reply does not tell which fields are missing.
\<close>

theorem missing_fields_not_singled_out:
  "q_make camry_without_zip = Str (ascii ''Toyota'')
   \<and> q_model camry_without_zip = Str (ascii ''Camry'')
   \<and> q_year camry_without_zip = Str (ascii ''2022'')
   \<and> q_zip camry_without_zip = Str []
   \<and> response (search Undefined (answering 200 [] camry_payload) 0 0 camry_without_zip stale_cache) =
       \<lparr>code = 400,
        body = JObj [(ascii ''error'',
                      JStr (ascii ''Missing required parameters: make, model, year, zip''))]\<rparr>
   \<and> sublist (ascii ''make'') (ascii ''Missing required parameters: make, model, year, zip'')
   \<and> sublist (ascii ''model'') (ascii ''Missing required parameters: make, model, year, zip'')
   \<and> sublist (ascii ''year'') (ascii ''Missing required parameters: make, model, year, zip'')
   \<and> q_make camry_without_make = Undefined
   \<and> q_zip camry_without_make = Str (ascii ''94103'')
   \<and> response (search Undefined (answering 200 [] camry_payload) 0 0 camry_without_make stale_cache) =
       response (search Undefined (answering 200 [] camry_payload) 0 0 camry_without_zip stale_cache)"
  by (simp add: search_def Let_def camry_without_zip_def camry_without_make_def missing_message_names)

text \<open>
  Remark. The reply is the same whichever of the four is missing: the message lists all
  four names and does not single out the missing ones.
\<close>

lemma missing_parameter_reply_fixed:
  assumes "falsy (q_make q) \<or> falsy (q_model q) \<or> falsy (q_year q) \<or> falsy (q_zip q)"
    and "falsy (q_make q') \<or> falsy (q_model q') \<or> falsy (q_year q') \<or> falsy (q_zip q')"
  shows "response (search api_key fetch now_read now_store q c) =
         response (search api_key' fetch' now_read' now_store' q' c')"
  using assms by (simp add: search_def Let_def)

section \<open>Cache miss\<close>

text \<open>
  Claim C6. For a valid query with no live cache entry (none, or one past its time to live),
  when the credential is undefined or empty the handler replies 500 with the body
  \<open>{error: string, message: string}\<close> below, makes no upstream call, and leaves the cache
  without an entry for the key. The outcome is a reply: the handler does not throw.
\<close>

theorem configuration_error:
  assumes "required_present q"
    and "\<And>e. c (key_of q) = Some e \<Longrightarrow> \<not> now_read - timestamp e < CACHE_DURATION"
    and "falsy api_key"
  shows "search api_key fetch now_read now_store q c =
     \<lparr>response =
        \<lparr>code = 500,
         body = JObj [(ascii ''error'', JStr (ascii ''Marketcheck API key not configured'')),
                      (ascii ''message'', JStr (ascii ''Please add MARKETCHECK_API_KEY to your .env file''))]\<rparr>,
      cache_after = c(key_of q := None), upstream_calls = []\<rparr>"
  using assms(1,3) getFromCache_miss [of c "key_of q" now_read, OF assms(2)]
  by (simp add: search_def Let_def)

theorem configuration_error_witness:
  "search Undefined (answering 200 [] camry_payload) 1800000 1800001 camry_query stale_cache =
     \<lparr>response =
        \<lparr>code = 500,
         body = JObj [(ascii ''error'', JStr (ascii ''Marketcheck API key not configured'')),
                      (ascii ''message'', JStr (ascii ''Please add MARKETCHECK_API_KEY to your .env file''))]\<rparr>,
      cache_after = Map.empty, upstream_calls = []\<rparr>"
proof -
  have u: "falsy Undefined" by simp
  note th = configuration_error [where c = stale_cache and q = camry_query and now_read = 1800000
      and api_key = Undefined and fetch = "answering 200 [] camry_payload" and now_store = 1800001,
      OF camry_present stale_miss u]
  then show ?thesis by (simp only: stale_cache_delete)
qed

text \<open>
  Claim C7. For a valid query with no live cache entry and the credential configured, when
  the upstream answers with a status outside 200..299 and its body reads as \<open>errorText\<close>,
  the handler replies with that status and the body \<open>{error, status, details}\<close> carrying the
  status and \<open>errorText\<close> unchanged; it makes exactly that one upstream call and stores
  nothing. Whatever the inputs, one run of the handler makes at most one upstream call.
\<close>

theorem upstream_failure:
  assumes "required_present q"
    and "\<And>e. c (key_of q) = Some e \<Longrightarrow> \<not> now_read - timestamp e < CACHE_DURATION"
    and "\<not> falsy api_key"
    and "fetch (request_of api_key q) = Resolved r"
    and "\<not> ok r"
    and "text_result r = Inr errorText"
  shows "search api_key fetch now_read now_store q c =
     \<lparr>response =
        \<lparr>code = status r,
         body = JObj [(ascii ''error'', JStr (ascii ''Marketcheck API request failed'')),
                      (ascii ''status'', JNum (of_nat (status r))),
                      (ascii ''details'', JStr errorText)]\<rparr>,
      cache_after = c(key_of q := None), upstream_calls = [request_of api_key q]\<rparr>
    \<and> length (upstream_calls (search api_key' fetch' now_read' now_store' q' c')) \<le> 1"
proof
  show "search api_key fetch now_read now_store q c =
     \<lparr>response =
        \<lparr>code = status r,
         body = JObj [(ascii ''error'', JStr (ascii ''Marketcheck API request failed'')),
                      (ascii ''status'', JNum (of_nat (status r))),
                      (ascii ''details'', JStr errorText)]\<rparr>,
      cache_after = c(key_of q := None), upstream_calls = [request_of api_key q]\<rparr>"
    using assms(1,3-) getFromCache_miss [of c "key_of q" now_read, OF assms(2)]
    by (simp add: search_def Let_def)
  show "length (upstream_calls (search api_key' fetch' now_read' now_store' q' c')) \<le> 1"
    by (simp add: search_def Let_def split: prod.splits fetched.splits sum.splits)
qed

theorem upstream_failure_witness:
  "search (Str (ascii ''k'')) (answering 429 (ascii ''slow down'') JNull) 1800000 1800001 camry_query stale_cache =
     \<lparr>response =
        \<lparr>code = 429,
         body = JObj [(ascii ''error'', JStr (ascii ''Marketcheck API request failed'')),
                      (ascii ''status'', JNum 429),
                      (ascii ''details'', JStr (ascii ''slow down''))]\<rparr>,
      cache_after = Map.empty, upstream_calls = [request_of (Str (ascii ''k'')) camry_query]\<rparr>
   \<and> length (upstream_calls (search (Str (ascii ''k'')) (answering 200 [] camry_payload) 0 0 camry_query Map.empty)) \<le> 1"
proof -
  let ?r = "\<lparr>status = 429, text_result = Inr (ascii ''slow down''), json_result = Inr JNull\<rparr>"
  have f: "answering 429 (ascii ''slow down'') JNull (request_of (Str (ascii ''k'')) camry_query) = Resolved ?r"
    by (simp add: answering_def)
  have n: "\<not> ok ?r" by (simp add: ok_def)
  have t: "text_result ?r = Inr (ascii ''slow down'')" by simp
  note th = upstream_failure [where c = stale_cache and q = camry_query and now_read = 1800000
      and api_key = "Str (ascii ''k'')" and fetch = "answering 429 (ascii ''slow down'') JNull" and now_store = 1800001
      and api_key' = "Str (ascii ''k'')" and fetch' = "answering 200 [] camry_payload" and now_read' = 0 and now_store' = 0
      and q' = camry_query and c' = Map.empty, OF camry_present stale_miss key_configured f n t]
  then show ?thesis by (simp add: stale_cache_delete)
qed

text \<open>
  Claim C4. For a valid query with no live cache entry and the credential configured, when
  the upstream succeeds and the \<open>listings\<close> of its payload is the empty array, the handler
  replies 200 with \<open>listings = []\<close> and \<open>num_found = 0\<close> (and a message), stores nothing,
  and the same query run again on the cache it left, at any time and whatever the upstream
  then answers, makes the upstream call again.
\<close>

theorem empty_result_not_cached:
  assumes "required_present q"
    and "\<And>e. c (key_of q) = Some e \<Longrightarrow> \<not> now_read - timestamp e < CACHE_DURATION"
    and "\<not> falsy api_key"
    and "fetch (request_of api_key q) = Resolved r"
    and "ok r"
    and "json_result r = Inr payload"
    and "get_listings payload = Inr (Some (JArr []))"
  shows "search api_key fetch now_read now_store q c =
     \<lparr>response =
        \<lparr>code = 200,
         body = JObj [(ascii ''listings'', JArr []), (ascii ''num_found'', JNum 0),
                      (ascii ''message'', JStr (ascii ''No listings found for this vehicle''))]\<rparr>,
      cache_after = c(key_of q := None), upstream_calls = [request_of api_key q]\<rparr>
    \<and> upstream_calls
          (search api_key fetch' now_read' now_store' q
             (cache_after (search api_key fetch now_read now_store q c))) =
        [request_of api_key q]"
proof -
  have first: "search api_key fetch now_read now_store q c =
     \<lparr>response =
        \<lparr>code = 200,
         body = JObj [(ascii ''listings'', JArr []), (ascii ''num_found'', JNum 0),
                      (ascii ''message'', JStr (ascii ''No listings found for this vehicle''))]\<rparr>,
      cache_after = c(key_of q := None), upstream_calls = [request_of api_key q]\<rparr>"
    using assms(1,3-) getFromCache_miss [of c "key_of q" now_read, OF assms(2)]
    by (simp add: search_def Let_def)
  have "getFromCache (key_of q) now_read' (c(key_of q := None)) = (JNull, c(key_of q := None))"
    using getFromCache_miss [of "c(key_of q := None)" "key_of q" now_read'] by simp
  with assms(1,3) have "upstream_calls (search api_key fetch' now_read' now_store' q (c(key_of q := None))) =
        [request_of api_key q]"
    by (simp add: search_def Let_def split: fetched.splits sum.splits)
  with first show ?thesis by simp
qed

theorem empty_result_not_cached_witness:
  "search (Str (ascii ''k'')) (answering 200 [] (JObj [(ascii ''listings'', JArr []), (ascii ''num_found'', JNum 0)]))
      1800000 1800001 camry_query stale_cache =
     \<lparr>response =
        \<lparr>code = 200,
         body = JObj [(ascii ''listings'', JArr []), (ascii ''num_found'', JNum 0),
                      (ascii ''message'', JStr (ascii ''No listings found for this vehicle''))]\<rparr>,
      cache_after = Map.empty, upstream_calls = [request_of (Str (ascii ''k'')) camry_query]\<rparr>
   \<and> upstream_calls
        (search (Str (ascii ''k'')) (answering 200 [] camry_payload) 1800002 1800003 camry_query
          (cache_after
            (search (Str (ascii ''k''))
              (answering 200 [] (JObj [(ascii ''listings'', JArr []), (ascii ''num_found'', JNum 0)]))
              1800000 1800001 camry_query stale_cache))) =
      [request_of (Str (ascii ''k'')) camry_query]"
proof -
  let ?p = "JObj [(ascii ''listings'', JArr []), (ascii ''num_found'', JNum 0)]"
  let ?r = "\<lparr>status = 200, text_result = Inr [], json_result = Inr ?p\<rparr>"
  have f: "answering 200 [] ?p (request_of (Str (ascii ''k'')) camry_query) = Resolved ?r"
    by (simp add: answering_def)
  have o: "ok ?r" by (simp add: ok_def)
  have j: "json_result ?r = Inr ?p" by simp
  have l: "get_listings ?p = Inr (Some (JArr []))" by simp
  note th = empty_result_not_cached [where c = stale_cache and q = camry_query and now_read = 1800000 and now_store = 1800001
      and api_key = "Str (ascii ''k'')" and fetch = "answering 200 [] ?p"
      and fetch' = "answering 200 [] camry_payload" and now_read' = 1800002 and now_store' = 1800003,
      OF camry_present stale_miss key_configured f o j l]
  show ?thesis using th [THEN conjunct1] th [THEN conjunct2] by (simp only: stale_cache_delete)
qed

text \<open>
  Claim C9, as amended. Under the same conditions, when the payload is not \<open>null\<close> and has
  no \<open>listings\<close> property at all (an object without it, or an array, a string, a number or
  a boolean), the handler gives the same empty-result reply (\<open>listings = []\<close>,
  \<open>num_found = 0\<close>, the message) and stores nothing.
\<close>

theorem missing_listings_is_empty_result:
  assumes "required_present q"
    and "\<And>e. c (key_of q) = Some e \<Longrightarrow> \<not> now_read - timestamp e < CACHE_DURATION"
    and "\<not> falsy api_key"
    and "fetch (request_of api_key q) = Resolved r"
    and "ok r"
    and "json_result r = Inr payload"
    and "get_listings payload = Inr None"
  shows "search api_key fetch now_read now_store q c =
     \<lparr>response =
        \<lparr>code = 200,
         body = JObj [(ascii ''listings'', JArr []), (ascii ''num_found'', JNum 0),
                      (ascii ''message'', JStr (ascii ''No listings found for this vehicle''))]\<rparr>,
      cache_after = c(key_of q := None), upstream_calls = [request_of api_key q]\<rparr>"
  using assms(1,3-) getFromCache_miss [of c "key_of q" now_read, OF assms(2)]
  by (simp add: search_def Let_def)

theorem missing_listings_is_empty_result_witness:
  "search (Str (ascii ''k'')) (answering 200 [] (JObj [(ascii ''num_found'', JNum 0)]))
      1800000 1800001 camry_query stale_cache =
     \<lparr>response =
        \<lparr>code = 200,
         body = JObj [(ascii ''listings'', JArr []), (ascii ''num_found'', JNum 0),
                      (ascii ''message'', JStr (ascii ''No listings found for this vehicle''))]\<rparr>,
      cache_after = Map.empty, upstream_calls = [request_of (Str (ascii ''k'')) camry_query]\<rparr>"
proof -
  let ?p = "JObj [(ascii ''num_found'', JNum 0)]"
  let ?r = "\<lparr>status = 200, text_result = Inr [], json_result = Inr ?p\<rparr>"
  have f: "answering 200 [] ?p (request_of (Str (ascii ''k'')) camry_query) = Resolved ?r"
    by (simp add: answering_def)
  have o: "ok ?r" by (simp add: ok_def)
  have j: "json_result ?r = Inr ?p" by simp
  have l: "get_listings ?p = Inr None" by (simp add: ascii_def)
  note th = missing_listings_is_empty_result [where c = stale_cache and q = camry_query and now_read = 1800000 and now_store = 1800001
      and api_key = "Str (ascii ''k'')" and fetch = "answering 200 [] ?p",
      OF camry_present stale_miss key_configured f o j l]
  then show ?thesis by (simp only: stale_cache_delete)
qed

text \<open>
  A payload that is \<open>null\<close> has no properties to read: \<open>data.listings\<close> throws, and the
  \<open>catch\<close> block replies 500.
\<close>

lemma null_payload_internal_error:
  assumes "required_present q"
    and "\<And>e. c (key_of q) = Some e \<Longrightarrow> \<not> now_read - timestamp e < CACHE_DURATION"
    and "\<not> falsy api_key"
    and "fetch (request_of api_key q) = Resolved r"
    and "ok r"
    and "json_result r = Inr JNull"
  shows "search api_key fetch now_read now_store q c =
     \<lparr>response = internal_server_error (ascii ''Cannot read properties of null (reading 'listings')''),
      cache_after = c(key_of q := None), upstream_calls = [request_of api_key q]\<rparr>"
  using assms(1,3-) getFromCache_miss [of c "key_of q" now_read, OF assms(2)]
  by (simp add: search_def Let_def)

text \<open>
  The wording of C9, every successful body without a \<open>listings\<close> field, fails at the body
  \<open>null\<close>: the upstream answers 200, the parsed body is \<open>null\<close>, and the reply is 500
  \<open>Internal server error\<close>, not the empty-result reply.
\<close>

theorem null_body_is_internal_error:
  "ok \<lparr>status = 200, text_result = Inr [], json_result = Inr JNull\<rparr>
   \<and> answering 200 [] JNull (request_of (Str (ascii ''k'')) camry_query) =
       Resolved \<lparr>status = 200, text_result = Inr [], json_result = Inr JNull\<rparr>
   \<and> response (search (Str (ascii ''k'')) (answering 200 [] JNull) 1800000 1800001 camry_query stale_cache) =
       \<lparr>code = 500,
        body = JObj [(ascii ''error'', JStr (ascii ''Internal server error'')),
                     (ascii ''message'',
                      JStr (ascii ''Cannot read properties of null (reading 'listings')''))]\<rparr>
   \<and> response (search (Str (ascii ''k'')) (answering 200 [] JNull) 1800000 1800001 camry_query stale_cache) \<noteq>
       \<lparr>code = 200,
        body = JObj [(ascii ''listings'', JArr []), (ascii ''num_found'', JNum 0),
                     (ascii ''message'', JStr (ascii ''No listings found for this vehicle''))]\<rparr>"
proof -
  let ?r = "\<lparr>status = 200, text_result = Inr [], json_result = Inr JNull\<rparr>"
  have f: "answering 200 [] JNull (request_of (Str (ascii ''k'')) camry_query) = Resolved ?r"
    by (simp add: answering_def)
  have o: "ok ?r" by (simp add: ok_def)
  have j: "json_result ?r = Inr JNull" by simp
  note th = null_payload_internal_error [where c = stale_cache and q = camry_query and now_read = 1800000
      and now_store = 1800001 and api_key = "Str (ascii ''k'')" and fetch = "answering 200 [] JNull",
      OF camry_present stale_miss key_configured f o j]
  then have "response (search (Str (ascii ''k'')) (answering 200 [] JNull) 1800000 1800001 camry_query stale_cache) =
       \<lparr>code = 500,
        body = JObj [(ascii ''error'', JStr (ascii ''Internal server error'')),
                     (ascii ''message'',
                      JStr (ascii ''Cannot read properties of null (reading 'listings')''))]\<rparr>"
    by (simp add: internal_server_error_def)
  with f o show ?thesis by simp
qed

section \<open>Cache hit after a store\<close>

lemma listed_payload_is_object:
  "get_listings payload = Inr listings \<Longrightarrow> \<not> no_listings listings \<Longrightarrow> JObj (spread payload) = payload"
  by (cases payload) auto

lemma search_hit:
  assumes "required_present q" and "c (key_of q) = Some e"
    and "now_read - timestamp e < CACHE_DURATION" and "truthy (data e)"
  shows "search api_key fetch now_read now_store q c =
     \<lparr>response =
        \<lparr>code = 200,
         body = JObj (AList.update (ascii ''cached'') (JBool True) (spread (data e)))\<rparr>,
      cache_after = c, upstream_calls = []\<rparr>"
  using assms(1,4) getFromCache_hit [where c = c and key = "key_of q", OF assms(2,3)]
  by (simp add: search_def Let_def)

lemma search_stores:
  assumes "required_present q"
    and "\<And>e. c (key_of q) = Some e \<Longrightarrow> \<not> now_read - timestamp e < CACHE_DURATION"
    and "\<not> falsy api_key"
    and "fetch (request_of api_key q) = Resolved r"
    and "ok r"
    and "json_result r = Inr payload"
    and "get_listings payload = Inr listings"
    and "\<not> no_listings listings"
  shows "search api_key fetch now_read now_store q c =
     \<lparr>response = \<lparr>code = 200, body = payload\<rparr>,
      cache_after = c(key_of q \<mapsto> \<lparr>data = payload, timestamp = now_store\<rparr>),
      upstream_calls = [request_of api_key q]\<rparr>"
  using assms(1,3-) getFromCache_miss [of c "key_of q" now_read, OF assms(2)]
  by (simp add: search_def Let_def setCache_def)

text \<open>
  Claim C1. For a valid query with no live cache entry and the credential configured, when
  the upstream succeeds with a payload whose \<open>listings\<close> is not empty: the first run makes
  the upstream call, replies 200 with the payload as it came (the handler adds no
  \<open>cached\<close> property) and stores it under the key of the query with the time of the store.
  A second run of the same query whose read falls within the time to live of that store
  replies 200 with the stored payload, an object, extended with \<open>cached: true\<close>, makes no
  upstream call (whatever the credential and the upstream then are) and leaves the cache
  as it is.
\<close>

theorem consecutive_lookups:
  assumes "required_present q"
    and "\<And>e. c (key_of q) = Some e \<Longrightarrow> \<not> now_read - timestamp e < CACHE_DURATION"
    and "\<not> falsy api_key"
    and "fetch (request_of api_key q) = Resolved r"
    and "ok r"
    and "json_result r = Inr payload"
    and "get_listings payload = Inr listings"
    and "\<not> no_listings listings"
    and "now_read' - now_store < CACHE_DURATION"
  shows "search api_key fetch now_read now_store q c =
     \<lparr>response = \<lparr>code = 200, body = payload\<rparr>,
      cache_after = c(key_of q \<mapsto> \<lparr>data = payload, timestamp = now_store\<rparr>),
      upstream_calls = [request_of api_key q]\<rparr>
    \<and> search api_key' fetch' now_read' now_store' q
          (cache_after (search api_key fetch now_read now_store q c)) =
     \<lparr>response =
        \<lparr>code = 200, body = JObj (AList.update (ascii ''cached'') (JBool True) (spread payload))\<rparr>,
      cache_after = c(key_of q \<mapsto> \<lparr>data = payload, timestamp = now_store\<rparr>),
      upstream_calls = []\<rparr>
    \<and> JObj (spread payload) = payload"
proof -
  let ?c1 = "c(key_of q \<mapsto> \<lparr>data = payload, timestamp = now_store\<rparr>)"
  have first: "search api_key fetch now_read now_store q c =
     \<lparr>response = \<lparr>code = 200, body = payload\<rparr>, cache_after = ?c1,
      upstream_calls = [request_of api_key q]\<rparr>"
    using search_stores [where c = c and q = q and fetch = fetch, OF assms(1-8)] .
  have obj: "JObj (spread payload) = payload"
    using assms(7,8) by (rule listed_payload_is_object)
  then have "truthy payload" by (cases payload) auto
  then have "search api_key' fetch' now_read' now_store' q ?c1 =
     \<lparr>response =
        \<lparr>code = 200, body = JObj (AList.update (ascii ''cached'') (JBool True) (spread payload))\<rparr>,
      cache_after = ?c1, upstream_calls = []\<rparr>"
    using search_hit [of q ?c1 "\<lparr>data = payload, timestamp = now_store\<rparr>" now_read'] assms(1,9)
    by simp
  with first obj show ?thesis by simp
qed

theorem consecutive_lookups_witness:
  "search (Str (ascii ''k'')) (answering 200 [] camry_payload) 1800000 1800001 camry_query stale_cache =
     \<lparr>response = \<lparr>code = 200, body = camry_payload\<rparr>,
      cache_after = [key_of camry_query \<mapsto> \<lparr>data = camry_payload, timestamp = 1800001\<rparr>],
      upstream_calls = [request_of (Str (ascii ''k'')) camry_query]\<rparr>
   \<and> search Undefined (answering 500 [] JNull) 3600000 3600001 camry_query
        (cache_after (search (Str (ascii ''k'')) (answering 200 [] camry_payload) 1800000 1800001 camry_query stale_cache)) =
     \<lparr>response =
        \<lparr>code = 200,
         body = JObj [(ascii ''listings'', JArr [JObj [(ascii ''id'', JNum 1)]]),
                      (ascii ''num_found'', JNum 1), (ascii ''cached'', JBool True)]\<rparr>,
      cache_after = [key_of camry_query \<mapsto> \<lparr>data = camry_payload, timestamp = 1800001\<rparr>],
      upstream_calls = []\<rparr>"
proof -
  let ?r = "\<lparr>status = 200, text_result = Inr [], json_result = Inr camry_payload\<rparr>"
  have f: "answering 200 [] camry_payload (request_of (Str (ascii ''k'')) camry_query) = Resolved ?r"
    by (simp add: answering_def)
  have o: "ok ?r" by (simp add: ok_def)
  have j: "json_result ?r = Inr camry_payload" by simp
  have t: "(3600000::int) - 1800001 < CACHE_DURATION" by (simp add: CACHE_DURATION_def)
  note th = consecutive_lookups [where c = stale_cache and q = camry_query and now_read = 1800000 and now_store = 1800001
      and api_key = "Str (ascii ''k'')" and fetch = "answering 200 [] camry_payload" and now_read' = 3600000
      and api_key' = Undefined and fetch' = "answering 500 [] JNull" and now_store' = 3600001,
      OF camry_present stale_miss key_configured f o j camry_listed t]
  show ?thesis using th [THEN conjunct1] th [THEN conjunct2, THEN conjunct1]
    by (simp only: stale_cache_update camry_cached)
qed

text \<open>
  Claim C10. \<open>rows\<close> is not part of the cache key. After a run that stored a non-empty
  payload for a valid query, a run of the query with any other \<open>rows\<close>, read within the time
  to live, replies 200 with the payload fetched for the first query's \<open>rows\<close>, extended with
  \<open>cached: true\<close>, and makes no upstream call.
\<close>

theorem rows_not_in_cache_key:
  assumes "required_present q"
    and "\<And>e. c (key_of q) = Some e \<Longrightarrow> \<not> now_read - timestamp e < CACHE_DURATION"
    and "\<not> falsy api_key"
    and "fetch (request_of api_key q) = Resolved r"
    and "ok r"
    and "json_result r = Inr payload"
    and "get_listings payload = Inr listings"
    and "\<not> no_listings listings"
    and "now_read' - now_store < CACHE_DURATION"
  shows "key_of (q\<lparr>q_rows := rows'\<rparr>) = key_of q
    \<and> search api_key' fetch' now_read' now_store' (q\<lparr>q_rows := rows'\<rparr>)
          (cache_after (search api_key fetch now_read now_store q c)) =
     \<lparr>response =
        \<lparr>code = 200, body = JObj (AList.update (ascii ''cached'') (JBool True) (spread payload))\<rparr>,
      cache_after = cache_after (search api_key fetch now_read now_store q c),
      upstream_calls = []\<rparr>"
proof -
  let ?c1 = "c(key_of q \<mapsto> \<lparr>data = payload, timestamp = now_store\<rparr>)"
  let ?q2 = "q\<lparr>q_rows := rows'\<rparr>"
  have first: "cache_after (search api_key fetch now_read now_store q c) = ?c1"
    using search_stores [where c = c and q = q and fetch = fetch, OF assms(1-8)] by simp
  have "JObj (spread payload) = payload"
    using assms(7,8) by (rule listed_payload_is_object)
  then have t: "truthy payload" by (cases payload) auto
  have k: "key_of ?q2 = key_of q" by simp
  have "search api_key' fetch' now_read' now_store' ?q2 ?c1 =
     \<lparr>response =
        \<lparr>code = 200, body = JObj (AList.update (ascii ''cached'') (JBool True) (spread payload))\<rparr>,
      cache_after = ?c1, upstream_calls = []\<rparr>"
    using search_hit [of ?q2 ?c1 "\<lparr>data = payload, timestamp = now_store\<rparr>" now_read'] assms(1,9) t
    by simp
  with first k show ?thesis by simp
qed

theorem rows_not_in_cache_key_witness:
  "key_of (camry_query\<lparr>q_rows := Str (ascii ''3'')\<rparr>) = key_of camry_query
   \<and> search (Str (ascii ''k'')) by_rows 3600000 3600001 (camry_query\<lparr>q_rows := Str (ascii ''3'')\<rparr>)
        (cache_after (search (Str (ascii ''k'')) by_rows 1800000 1800001 camry_query stale_cache)) =
     \<lparr>response =
        \<lparr>code = 200,
         body = JObj [(ascii ''listings'', JArr [JObj [(ascii ''id'', JNum 1)]]),
                      (ascii ''num_found'', JNum 1), (ascii ''cached'', JBool True)]\<rparr>,
      cache_after = cache_after (search (Str (ascii ''k'')) by_rows 1800000 1800001 camry_query stale_cache),
      upstream_calls = []\<rparr>"
proof -
  let ?r = "\<lparr>status = 200, text_result = Inr [], json_result = Inr camry_payload\<rparr>"
  have "decimal 10 = ascii ''10''"
    by (simp add: decimal.simps [of 10] decimal.simps [of 1] decimal.simps [of "Suc 0"] decimal_digit_def ascii_def)
  then have f: "by_rows (request_of (Str (ascii ''k'')) camry_query) = Resolved ?r"
    by (simp add: by_rows_def answering_def search_params_def camry_query_def ascii_def
         scalar_unit_def is_leading_surrogate_def is_trailing_surrogate_def)
  have o: "ok ?r" by (simp add: ok_def)
  have j: "json_result ?r = Inr camry_payload" by simp
  have t: "(3600000::int) - 1800001 < CACHE_DURATION" by (simp add: CACHE_DURATION_def)
  note th = rows_not_in_cache_key [where c = stale_cache and q = camry_query and now_read = 1800000 and fetch = by_rows
      and now_store = 1800001 and api_key = "Str (ascii ''k'')" and now_read' = 3600000
      and api_key' = "Str (ascii ''k'')" and fetch' = by_rows and now_store' = 3600001 and rows' = "Str (ascii ''3'')",
      OF camry_present stale_miss key_configured f o j camry_listed t]
  then show ?thesis by (simp only: camry_cached)
qed

section \<open>CORS\<close>

text \<open>
  Claim C8. The origin check allows every origin: for an absent or empty origin, for one on
  the allow-list or ending in \<open>.claude.ai\<close>, and for any other, the callback receives
  \<open>(null, true)\<close>.
\<close>

theorem cors_allows_every_origin: "cors_origin origin = (None, True)"
  by (simp add: cors_origin_def)

end
